theory Spec2Isabelle
  imports Main "HOL-Library.Word"
begin

unbundle bit_operations_syntax

section \<open>Machine types and atomic primitives\<close>

text \<open>
  The C++ types of the two headers: \<open>jint\<close> and \<open>int\<close> are 32-bit two's complement
  integers, \<open>uint\<close> is a 32-bit unsigned integer, \<open>uintptr_t\<close> and every object pointer
  are 64-bit words (LP64), \<open>nullptr\<close> is the address 0. Arithmetic on words wraps.
  A C++ member \<open>_foo\<close> is the record field \<open>m_foo\<close>, since a name cannot start with
  an underscore here.
\<close>

type_synonym jint = "32 word"
type_synonym uint = "32 word"
type_synonym uintptr_t = "64 word"

definition nullptr :: uintptr_t where
  "nullptr = 0"

text \<open>
  Modelled from the spec: \<open>Atomic::cmpxchg(dest, compare_value, exchange_value)\<close> and
  \<open>Atomic::xchg(dest, exchange_value)\<close> of runtime/atomic.hpp, which is missing. The spec
  calls the operation an atomic compare-and-swap; the caller's own test
  \<open>old == (1-new_state)\<close> fixes the second argument as the compared value. Each is one
  indivisible step on the cell: the pair returned is the cell's new content and the value
  the cell held before.
\<close>

definition cmpxchg :: "'a \<Rightarrow> 'a \<Rightarrow> 'a \<Rightarrow> 'a \<times> 'a" where
  "cmpxchg dest compare_value exchange_value =
     (if dest = compare_value then exchange_value else dest, dest)"

definition xchg :: "'a \<Rightarrow> 'a \<Rightarrow> 'a \<times> 'a" where
  "xchg dest exchange_value = (exchange_value, dest)"

section \<open>CompileQueue and CompileBroker (compileBroker.hpp)\<close>

text \<open>
  The counters of a \<open>CompileQueue\<close>; the task list, the stale list, the name and the
  monitor play no part in the functions modelled.
\<close>

record CompileQueue =
  m_size :: jint
  m_peak_size :: jint
  m_total_added :: uint
  m_total_removed :: uint

definition size_q :: "CompileQueue \<Rightarrow> jint" where
  "size_q q = m_size q"

definition get_peak_size :: "CompileQueue \<Rightarrow> jint" where
  "get_peak_size q = m_peak_size q"

text \<open>
  The static members of \<open>CompileBroker\<close> that the inline functions of the header read or
  write, together with the two global flags that \<open>disable_compilation_forever\<close> clears.
\<close>

record CompileBroker =
  UseCompiler :: bool
  AlwaysCompileLoopMethods :: bool
  m_should_compile_new_jobs :: jint
  m_total_compiler_stopped_count :: uint
  m_total_compiler_restarted_count :: uint
  m_print_compilation_warning :: jint

text \<open>\<open>enum CompilerActivity\<close>\<close>

definition stop_compilation :: jint where
  "stop_compilation = 0"

definition run_compilation :: jint where
  "run_compilation = 1"

definition shutdown_compilation :: jint where
  "shutdown_compilation = 2"

definition get_compilation_activity_mode :: "CompileBroker \<Rightarrow> jint" where
  "get_compilation_activity_mode b = m_should_compile_new_jobs b"

definition should_compile_new_jobs :: "CompileBroker \<Rightarrow> bool" where
  "should_compile_new_jobs b \<longleftrightarrow>
     UseCompiler b \<and> m_should_compile_new_jobs b = run_compilation"

definition set_should_compile_new_jobs :: "jint \<Rightarrow> CompileBroker \<Rightarrow> bool \<times> CompileBroker" where
  "set_should_compile_new_jobs new_state b =
     (let (cell, old) = cmpxchg (m_should_compile_new_jobs b) (1 - new_state) new_state;
          b1 = b\<lparr>m_should_compile_new_jobs := cell\<rparr>;
          success = (old = 1 - new_state)
      in if success then
           (if new_state = run_compilation
            then (success, b1\<lparr>m_total_compiler_restarted_count :=
                                m_total_compiler_restarted_count b1 + 1\<rparr>)
            else (success, b1\<lparr>m_total_compiler_stopped_count :=
                                m_total_compiler_stopped_count b1 + 1\<rparr>))
         else (success, b1))"

definition disable_compilation_forever :: "CompileBroker \<Rightarrow> CompileBroker" where
  "disable_compilation_forever b =
     (let b1 = b\<lparr>UseCompiler := False\<rparr>;
          b2 = b1\<lparr>AlwaysCompileLoopMethods := False\<rparr>
      in b2\<lparr>m_should_compile_new_jobs :=
               fst (xchg (m_should_compile_new_jobs b2) shutdown_compilation)\<rparr>)"

definition is_compilation_disabled_forever :: "CompileBroker \<Rightarrow> bool" where
  "is_compilation_disabled_forever b \<longleftrightarrow>
     m_should_compile_new_jobs b = shutdown_compilation"

definition should_print_compiler_warning :: "CompileBroker \<Rightarrow> bool \<times> CompileBroker" where
  "should_print_compiler_warning b =
     (let (cell, old) = cmpxchg (m_print_compilation_warning b) 0 1
      in (old = 0, b\<lparr>m_print_compilation_warning := cell\<rparr>))"

text \<open>
  \<open>queue_size\<close> dereferences the pointer that \<open>compile_queue\<close> returns. The body of
  \<open>compile_queue\<close> is in compileBroker.cpp, so it is a parameter here: any function from
  a tier and the \<open>is_scc\<close> flag to a queue pointer. The heap maps the addresses of the
  allocated queues to their contents; reading through a pointer that is not allocated is
  a fault, the result \<open>None\<close>.
\<close>

type_synonym queue_heap = "uintptr_t \<rightharpoonup> CompileQueue"

definition queue_size ::
  "queue_heap \<Rightarrow> (jint \<Rightarrow> bool \<Rightarrow> uintptr_t) \<Rightarrow> jint \<Rightarrow> bool \<Rightarrow> jint option" where
  "queue_size heap compile_queue comp_level is_scc =
     (let q = compile_queue comp_level is_scc
      in if q \<noteq> nullptr then map_option size_q (heap q) else Some 0)"

text \<open>
  A run of the broker: whole calls of the functions above, one after the other.
  \<open>should_print_compiler_warning\<close> is a single atomic instruction on
  \<open>_print_compilation_warning\<close>, a field that no other function of the header writes,
  and its result is decided from the value that instruction returned; the calls of
  several threads therefore act on that field as one such sequence, in the order in which
  their instructions take effect.
\<close>

datatype broker_call =
    Set_should_compile_new_jobs jint
  | Disable_compilation_forever
  | Should_print_compiler_warning

datatype call_result = Returned bool | Void

fun call :: "broker_call \<Rightarrow> CompileBroker \<Rightarrow> call_result \<times> CompileBroker" where
  "call (Set_should_compile_new_jobs new_state) b =
     (let (r, b1) = set_should_compile_new_jobs new_state b in (Returned r, b1))"
| "call Disable_compilation_forever b = (Void, disable_compilation_forever b)"
| "call Should_print_compiler_warning b =
     (let (r, b1) = should_print_compiler_warning b in (Returned r, b1))"

text \<open>The trace of a run: each call with its result and the state it leaves.\<close>

fun calls :: "broker_call list \<Rightarrow> CompileBroker \<Rightarrow> (broker_call \<times> call_result \<times> CompileBroker) list" where
  "calls [] b = []"
| "calls (c # cs) b = (let (r, b1) = call c b in (c, r, b1) # calls cs b1)"

text \<open>
  The calls an operator of the admission gate makes once compilation is being retired:
  requests to run or to stop, the irreversible shutdown, and the warning latch.
\<close>

definition operator_call :: "broker_call \<Rightarrow> bool" where
  "operator_call c \<longleftrightarrow>
     c = Set_should_compile_new_jobs run_compilation \<or>
     c = Set_should_compile_new_jobs stop_compilation \<or>
     c = Disable_compilation_forever \<or> c = Should_print_compiler_warning"

text \<open>
  An entry of a trace at which \<open>should_print_compiler_warning\<close> returned true.
\<close>

definition printed :: "broker_call \<times> call_result \<times> CompileBroker \<Rightarrow> bool" where
  "printed e \<longleftrightarrow> fst e = Should_print_compiler_warning \<and> fst (snd e) = Returned True"

section \<open>nmethod (nmethod.hpp)\<close>

subsection \<open>The tagged link of the root-scan protocol\<close>

text \<open>States used for claiming nmethods during root processing.\<close>

definition claim_weak_request_tag :: uint where
  "claim_weak_request_tag = 0"

definition claim_weak_done_tag :: uint where
  "claim_weak_done_tag = 1"

definition claim_strong_request_tag :: uint where
  "claim_strong_request_tag = 2"

definition claim_strong_done_tag :: uint where
  "claim_strong_done_tag = 3"

text \<open>
  Modelled from the spec: \<open>is_aligned\<close> of utilities/align.hpp, which is missing; the
  assertion's message reads "nmethod pointer must have zero lower two LSB", so for the
  power of two \<open>alignment\<close> the bits below it are zero.
\<close>

definition is_aligned :: "uintptr_t \<Rightarrow> uintptr_t \<Rightarrow> bool" where
  "is_aligned p alignment \<longleftrightarrow> p AND (alignment - 1) = 0"

text \<open>
  \<open>mark_link\<close> with its two assertions: a failed assertion is the result \<open>None\<close>.
  The literal \<open>~0x3\<close> is the \<open>int\<close> -4, sign-extended to the pointer width, that is
  \<open>NOT 3\<close>; the 32-bit tag is zero-extended.
\<close>

definition mark_link :: "uintptr_t \<Rightarrow> uint \<Rightarrow> uintptr_t option" where
  "mark_link nm tag =
     (if \<not> tag \<le> claim_strong_done_tag then None
      else if \<not> is_aligned nm 4 then None
      else Some ((nm AND NOT 3) OR ucast tag))"

definition extract_state :: "uintptr_t \<Rightarrow> uint" where
  "extract_state link = ucast (link AND 3)"

definition extract_nmethod :: "uintptr_t \<Rightarrow> uintptr_t" where
  "extract_nmethod link = link AND NOT 3"

definition oops_do_has_weak_request :: "uintptr_t \<Rightarrow> bool" where
  "oops_do_has_weak_request link \<longleftrightarrow> extract_state link = claim_weak_request_tag"

definition oops_do_has_any_strong_state :: "uintptr_t \<Rightarrow> bool" where
  "oops_do_has_any_strong_state link \<longleftrightarrow> extract_state link \<ge> claim_strong_request_tag"

subsection \<open>The nmethod object\<close>

text \<open>
  The install states named in the comment on \<open>_state\<close>. Their numeric values are
  declared in compiledMethod.hpp, which is missing, so they are kept symbolic.
\<close>

datatype nm_state = not_installed | in_use | not_used | not_entrant

text \<open>
  The fields that the inline functions of the header read or write. \<open>header_begin\<close> is
  the address of the object (\<open>CodeBlob::header_begin\<close>) and \<open>m_scopes_data_begin\<close> the
  pointer inherited from \<open>CompiledMethod\<close>. Addresses and offsets of the layout are
  mathematical integers counting bytes.
\<close>

record nmethod =
  header_begin :: int
  m_osr_link :: uintptr_t
  m_method :: uintptr_t
  m_is_unlinked :: bool
  m_oops_offset :: int
  m_metadata_offset :: int
  m_scopes_data_begin :: int
  m_has_flushed_dependencies :: bool
  m_load_reported :: bool
  m_state :: nm_state

subsection \<open>Embedded oop and metadata tables\<close>

text \<open>
  \<open>oopSize\<close> and \<open>wordSize\<close> (utilities/globalDefinitions.hpp, missing) are parameters:
  the size in bytes of one \<open>oop\<close> slot and of one \<open>Metadata*\<close> slot. Indexing an
  \<open>oop*\<close> advances by \<open>oopSize\<close> bytes, indexing a \<open>Metadata**\<close> by \<open>wordSize\<close> bytes.
\<close>

definition oops_begin :: "nmethod \<Rightarrow> int" where
  "oops_begin nm = header_begin nm + m_oops_offset nm"

definition oops_end :: "nmethod \<Rightarrow> int" where
  "oops_end nm = header_begin nm + m_metadata_offset nm"

definition metadata_begin :: "nmethod \<Rightarrow> int" where
  "metadata_begin nm = header_begin nm + m_metadata_offset nm"

definition metadata_end :: "nmethod \<Rightarrow> int" where
  "metadata_end nm = m_scopes_data_begin nm"

text \<open>
  The sizes convert the pointer difference with \<open>int(...)\<close>: the difference is reduced
  to the 32 bits of an \<open>int\<close>, read as two's complement. Arithmetic on \<open>int\<close> wraps
  in the same way.
\<close>

definition cast_int :: "int \<Rightarrow> int" where
  "cast_int d = (d + 2147483648) mod 4294967296 - 2147483648"

definition oops_size :: "nmethod \<Rightarrow> int" where
  "oops_size nm = cast_int (oops_end nm - oops_begin nm)"

definition metadata_size :: "nmethod \<Rightarrow> int" where
  "metadata_size nm = cast_int (metadata_end nm - metadata_begin nm)"

text \<open>
  The counts assert that the table is a whole number of slots; where the assertion
  holds the quotient is exact, so truncating and flooring division agree.
\<close>

definition oops_count :: "int \<Rightarrow> nmethod \<Rightarrow> int option" where
  "oops_count oopSize nm =
     (if oops_size nm mod oopSize = 0 then Some (cast_int (oops_size nm div oopSize + 1))
      else None)"

definition metadata_count :: "int \<Rightarrow> nmethod \<Rightarrow> int option" where
  "metadata_count wordSize nm =
     (if metadata_size nm mod wordSize = 0
      then Some (cast_int (metadata_size nm div wordSize + 1))
      else None)"

definition oops_contains :: "nmethod \<Rightarrow> int \<Rightarrow> bool" where
  "oops_contains nm addr \<longleftrightarrow> oops_begin nm \<le> addr \<and> addr < oops_end nm"

definition metadata_contains :: "nmethod \<Rightarrow> int \<Rightarrow> bool" where
  "metadata_contains nm addr \<longleftrightarrow> metadata_begin nm \<le> addr \<and> addr < metadata_end nm"

definition oop_addr_at :: "int \<Rightarrow> nmethod \<Rightarrow> int \<Rightarrow> int option" where
  "oop_addr_at oopSize nm index =
     (case oops_count oopSize nm of
        None \<Rightarrow> None
      | Some n \<Rightarrow>
          if index > 0 \<and> index \<le> n then Some (oops_begin nm + (index - 1) * oopSize)
          else None)"

definition metadata_addr_at :: "int \<Rightarrow> nmethod \<Rightarrow> int \<Rightarrow> int option" where
  "metadata_addr_at wordSize nm index =
     (case metadata_count wordSize nm of
        None \<Rightarrow> None
      | Some n \<Rightarrow>
          if index > 0 \<and> index \<le> n then Some (metadata_begin nm + (index - 1) * wordSize)
          else None)"

subsection \<open>Flags and their setters\<close>

definition is_unlinked :: "nmethod \<Rightarrow> bool" where
  "is_unlinked nm = m_is_unlinked nm"

definition set_is_unlinked :: "nmethod \<Rightarrow> nmethod option" where
  "set_is_unlinked nm =
     (if \<not> m_is_unlinked nm then Some (nm\<lparr>m_is_unlinked := True\<rparr>) else None)"

definition has_flushed_dependencies :: "nmethod \<Rightarrow> bool" where
  "has_flushed_dependencies nm = m_has_flushed_dependencies nm"

definition set_has_flushed_dependencies :: "nmethod \<Rightarrow> nmethod option" where
  "set_has_flushed_dependencies nm =
     (if \<not> has_flushed_dependencies nm then Some (nm\<lparr>m_has_flushed_dependencies := True\<rparr>)
      else None)"

definition osr_link :: "nmethod \<Rightarrow> uintptr_t" where
  "osr_link nm = m_osr_link nm"

definition set_osr_link :: "uintptr_t \<Rightarrow> nmethod \<Rightarrow> nmethod" where
  "set_osr_link n nm = nm\<lparr>m_osr_link := n\<rparr>"

definition set_method :: "uintptr_t \<Rightarrow> nmethod \<Rightarrow> nmethod" where
  "set_method method nm = nm\<lparr>m_method := method\<rparr>"

definition load_reported :: "nmethod \<Rightarrow> bool" where
  "load_reported nm = m_load_reported nm"

definition set_load_reported :: "nmethod \<Rightarrow> nmethod" where
  "set_load_reported nm = nm\<lparr>m_load_reported := True\<rparr>"

text \<open>
  The setters whose bodies the header gives, as calls on one nmethod. A failed assertion
  stops the run.
\<close>

datatype nm_setter =
    Set_is_unlinked
  | Set_has_flushed_dependencies
  | Set_osr_link uintptr_t
  | Set_method uintptr_t
  | Set_load_reported

fun apply_setter :: "nm_setter \<Rightarrow> nmethod \<Rightarrow> nmethod option" where
  "apply_setter Set_is_unlinked nm = set_is_unlinked nm"
| "apply_setter Set_has_flushed_dependencies nm = set_has_flushed_dependencies nm"
| "apply_setter (Set_osr_link n) nm = Some (set_osr_link n nm)"
| "apply_setter (Set_method method) nm = Some (set_method method nm)"
| "apply_setter Set_load_reported nm = Some (set_load_reported nm)"

fun apply_setters :: "nm_setter list \<Rightarrow> nmethod \<Rightarrow> nmethod option" where
  "apply_setters [] nm = Some nm"
| "apply_setters (c # cs) nm =
     (case apply_setter c nm of None \<Rightarrow> None | Some nm1 \<Rightarrow> apply_setters cs nm1)"

subsection \<open>Install state\<close>

definition is_not_installed :: "nmethod \<Rightarrow> bool" where
  "is_not_installed nm \<longleftrightarrow> m_state nm = not_installed"

definition is_not_entrant :: "nmethod \<Rightarrow> bool" where
  "is_not_entrant nm \<longleftrightarrow> m_state nm = not_entrant"

text \<open>
  Modelled from the spec: the body of \<open>nmethod::try_transition\<close>, which is in
  nmethod.cpp and missing. The spec gives the install states, the order
  \<open>not_installed \<rightarrow> in_use \<rightarrow> {not_used, not_entrant}\<close> along which the state moves, and
  the operation: "a single atomic compare-and-swap on the state field; it returns whether
  this caller performed the transition". The value compared is the state that precedes
  \<open>new_state\<close> in that order; \<open>not_installed\<close> has none, so no call moves to it.
\<close>

fun preceding_state :: "nm_state \<Rightarrow> nm_state option" where
  "preceding_state not_installed = None"
| "preceding_state in_use = Some not_installed"
| "preceding_state not_used = Some in_use"
| "preceding_state not_entrant = Some in_use"

definition try_transition :: "nm_state \<Rightarrow> nmethod \<Rightarrow> bool \<times> nmethod" where
  "try_transition new_state nm =
     (case preceding_state new_state of
        None \<Rightarrow> (False, nm)
      | Some expected \<Rightarrow>
          (let (cell, old) = cmpxchg (m_state nm) expected new_state
           in (old = expected, nm\<lparr>m_state := cell\<rparr>)))"

definition make_in_use :: "nmethod \<Rightarrow> bool \<times> nmethod" where
  "make_in_use nm = try_transition in_use nm"

text \<open>
  Modelled from the spec: the body of \<open>nmethod::make_not_entrant(bool)\<close>, which is in
  nmethod.cpp and missing: the retirement of the artifact is a \<open>try_transition\<close> to
  \<open>not_entrant\<close>, or to \<open>not_used\<close> when the flag is false, and the call "returns true if
  this thread changed the state of the nmethod".
\<close>

definition make_not_entrant :: "bool \<Rightarrow> nmethod \<Rightarrow> bool \<times> nmethod" where
  "make_not_entrant flag nm = try_transition (if flag then not_entrant else not_used) nm"

definition make_not_used :: "nmethod \<Rightarrow> bool \<times> nmethod" where
  "make_not_used nm = make_not_entrant False nm"

definition get_state :: "nmethod \<Rightarrow> nm_state" where
  "get_state nm = m_state nm"

datatype nm_transition =
    Try_transition nm_state
  | Make_in_use
  | Make_not_entrant bool
  | Make_not_used

fun transition :: "nm_transition \<Rightarrow> nmethod \<Rightarrow> bool \<times> nmethod" where
  "transition (Try_transition new_state) nm = try_transition new_state nm"
| "transition Make_in_use nm = make_in_use nm"
| "transition (Make_not_entrant flag) nm = make_not_entrant flag nm"
| "transition Make_not_used nm = make_not_used nm"

fun transitions :: "nm_transition list \<Rightarrow> nmethod \<Rightarrow> nmethod" where
  "transitions [] nm = nm"
| "transitions (c # cs) nm = transitions cs (snd (transition c nm))"

text \<open>The arrows of the order of install states.\<close>

definition state_arrow :: "nm_state \<Rightarrow> nm_state \<Rightarrow> bool" where
  "state_arrow s t \<longleftrightarrow>
     (s = not_installed \<and> t = in_use) \<or> (s = in_use \<and> t = not_used)
       \<or> (s = in_use \<and> t = not_entrant)"

section \<open>Properties of the admission gate\<close>

lemma jint_ne_one_minus: "(n::jint) \<noteq> 1 - n"
proof
  assume "n = 1 - n"
  then have "n + n = 1" by (simp add: algebra_simps)
  then have "2 * n = 1" by simp
  then have "even (1::jint)" by (metis dvd_triv_left)
  then show False by simp
qed

lemma set_should_compile_new_jobs_again:
  "set_should_compile_new_jobs n (snd (set_should_compile_new_jobs n b)) =
     (False, snd (set_should_compile_new_jobs n b))"
  using jint_ne_one_minus [of n]
  by (auto simp: set_should_compile_new_jobs_def cmpxchg_def Let_def)

lemma set_should_compile_new_jobs_failed:
  "\<not> fst (set_should_compile_new_jobs n b) \<Longrightarrow> snd (set_should_compile_new_jobs n b) = b"
  by (auto simp: set_should_compile_new_jobs_def cmpxchg_def Let_def)

lemma set_should_compile_new_jobs_restarted:
  "fst (set_should_compile_new_jobs n b) \<Longrightarrow> n = run_compilation \<Longrightarrow>
   snd (set_should_compile_new_jobs n b) =
     b\<lparr>m_should_compile_new_jobs := n,
       m_total_compiler_restarted_count := m_total_compiler_restarted_count b + 1\<rparr>"
  by (auto simp: set_should_compile_new_jobs_def cmpxchg_def Let_def)

lemma set_should_compile_new_jobs_stopped:
  "fst (set_should_compile_new_jobs n b) \<Longrightarrow> n \<noteq> run_compilation \<Longrightarrow>
   snd (set_should_compile_new_jobs n b) =
     b\<lparr>m_should_compile_new_jobs := n,
       m_total_compiler_stopped_count := m_total_compiler_stopped_count b + 1\<rparr>"
  by (auto simp: set_should_compile_new_jobs_def cmpxchg_def Let_def)

lemma set_should_compile_new_jobs_on_shutdown:
  "m_should_compile_new_jobs b = shutdown_compilation \<Longrightarrow>
   n = run_compilation \<or> n = stop_compilation \<Longrightarrow>
   set_should_compile_new_jobs n b = (False, b)"
  by (auto simp: set_should_compile_new_jobs_def cmpxchg_def Let_def
      shutdown_compilation_def run_compilation_def stop_compilation_def)

lemma disable_compilation_forever_shutdown:
  "m_should_compile_new_jobs (disable_compilation_forever b) = shutdown_compilation"
  by (simp add: disable_compilation_forever_def xchg_def Let_def)

lemma should_print_keeps_admission:
  "m_should_compile_new_jobs (snd (should_print_compiler_warning b)) =
     m_should_compile_new_jobs b"
  by (simp add: should_print_compiler_warning_def cmpxchg_def Let_def)

lemma call_on_shutdown:
  assumes "m_should_compile_new_jobs b = shutdown_compilation" and "operator_call c"
  shows "m_should_compile_new_jobs (snd (call c b)) = shutdown_compilation"
    and "c = Set_should_compile_new_jobs n \<Longrightarrow> call c b = (Returned False, b)"
proof -
  show "m_should_compile_new_jobs (snd (call c b)) = shutdown_compilation"
  proof (cases c)
    case (Set_should_compile_new_jobs k)
    then have "k = run_compilation \<or> k = stop_compilation"
      using assms(2) by (simp add: operator_call_def)
    then show ?thesis
      using Set_should_compile_new_jobs assms(1)
      by (simp add: set_should_compile_new_jobs_on_shutdown)
  next
    case Disable_compilation_forever
    then show ?thesis by (simp add: disable_compilation_forever_shutdown)
  next
    case Should_print_compiler_warning
    then show ?thesis
      using assms(1) should_print_keeps_admission [of b]
      by (simp add: case_prod_unfold Let_def)
  qed
  show "call c b = (Returned False, b)" if "c = Set_should_compile_new_jobs n"
  proof -
    have "n = run_compilation \<or> n = stop_compilation"
      using that assms(2) by (simp add: operator_call_def)
    then show ?thesis
      using that assms(1) by (simp add: set_should_compile_new_jobs_on_shutdown)
  qed
qed

lemma calls_on_shutdown:
  assumes "m_should_compile_new_jobs b = shutdown_compilation"
      and "\<forall>c \<in> set cs. operator_call c"
      and "(c, r, b') \<in> set (calls cs b)"
  shows "m_should_compile_new_jobs b' = shutdown_compilation
         \<and> (\<forall>n. c = Set_should_compile_new_jobs n \<longrightarrow> r = Returned False)"
  using assms
proof (induction cs arbitrary: b)
  case Nil
  then show ?case by simp
next
  case (Cons x xs)
  obtain r1 b1 where step: "call x b = (r1, b1)" by (cases "call x b")
  have op: "operator_call x" using Cons.prems(2) by simp
  have b1: "m_should_compile_new_jobs b1 = shutdown_compilation"
    using call_on_shutdown(1) [OF Cons.prems(1) op] step by simp
  from Cons.prems(3) step
  consider "(c, r, b') = (x, r1, b1)" | "(c, r, b') \<in> set (calls xs b1)"
    by auto
  then show ?case
  proof cases
    case 1
    then show ?thesis
      using b1 call_on_shutdown(2) [OF Cons.prems(1) op] step by auto
  next
    case 2
    then show ?thesis
      using Cons.IH [OF b1] Cons.prems(2) by simp
  qed
qed

text \<open>
  C3. Shutdown is terminal. Once \<open>_should_compile_new_jobs\<close> holds
  \<open>shutdown_compilation\<close>, a call of \<open>set_should_compile_new_jobs\<close> with
  \<open>run_compilation\<close> or with \<open>stop_compilation\<close> returns false and leaves the whole
  state as it was; and in every run of operator calls from such a state, every state
  reached still holds \<open>shutdown_compilation\<close>, \<open>is_compilation_disabled_forever\<close>
  is true there, and every \<open>set_should_compile_new_jobs\<close> call returned false.
\<close>

theorem shutdown_is_terminal:
  assumes "is_compilation_disabled_forever b"
      and "\<forall>c \<in> set cs. operator_call c"
  shows "set_should_compile_new_jobs run_compilation b = (False, b)
       \<and> set_should_compile_new_jobs stop_compilation b = (False, b)
       \<and> (\<forall>(c, r, b') \<in> set (calls cs b).
            is_compilation_disabled_forever b'
          \<and> m_should_compile_new_jobs b' = shutdown_compilation
          \<and> (\<forall>n. c = Set_should_compile_new_jobs n \<longrightarrow> r = Returned False))"
proof -
  have sd: "m_should_compile_new_jobs b = shutdown_compilation"
    using assms(1) by (simp add: is_compilation_disabled_forever_def)
  have "set_should_compile_new_jobs run_compilation b = (False, b)"
    and "set_should_compile_new_jobs stop_compilation b = (False, b)"
    using sd by (simp_all add: set_should_compile_new_jobs_on_shutdown)
  moreover have "\<forall>(c, r, b') \<in> set (calls cs b).
            is_compilation_disabled_forever b'
          \<and> m_should_compile_new_jobs b' = shutdown_compilation
          \<and> (\<forall>n. c = Set_should_compile_new_jobs n \<longrightarrow> r = Returned False)"
    using calls_on_shutdown [OF sd assms(2)]
    by (auto simp: is_compilation_disabled_forever_def)
  ultimately show ?thesis by simp
qed

theorem shutdown_is_terminal_witness:
  "is_compilation_disabled_forever
     (disable_compilation_forever
        \<lparr>UseCompiler = True, AlwaysCompileLoopMethods = True,
         m_should_compile_new_jobs = run_compilation,
         m_total_compiler_stopped_count = 0, m_total_compiler_restarted_count = 0,
         m_print_compilation_warning = 0\<rparr>)
   \<and> map (fst \<circ> snd)
       (calls [Set_should_compile_new_jobs run_compilation,
               Set_should_compile_new_jobs stop_compilation,
               Disable_compilation_forever,
               Set_should_compile_new_jobs run_compilation]
          (disable_compilation_forever
             \<lparr>UseCompiler = True, AlwaysCompileLoopMethods = True,
              m_should_compile_new_jobs = run_compilation,
              m_total_compiler_stopped_count = 0, m_total_compiler_restarted_count = 0,
              m_print_compilation_warning = 0\<rparr>))
     = [Returned False, Returned False, Void, Returned False]"
  using shutdown_is_terminal
    [of "disable_compilation_forever
        \<lparr>UseCompiler = True, AlwaysCompileLoopMethods = True,
         m_should_compile_new_jobs = run_compilation,
         m_total_compiler_stopped_count = 0, m_total_compiler_restarted_count = 0,
         m_print_compilation_warning = 0\<rparr>"
      "[Set_should_compile_new_jobs run_compilation,
               Set_should_compile_new_jobs stop_compilation,
               Disable_compilation_forever,
               Set_should_compile_new_jobs run_compilation]"]
  by (simp add: operator_call_def is_compilation_disabled_forever_def
      disable_compilation_forever_def xchg_def set_should_compile_new_jobs_def cmpxchg_def
      run_compilation_def stop_compilation_def shutdown_compilation_def Let_def)

text \<open>
  C4. Setting the admission state is idempotent and never double-counts. From every
  state and for every argument, a second call of \<open>set_should_compile_new_jobs\<close> with the
  same argument returns false and leaves the state left by the first call unchanged. A
  call that returns false changes nothing, so neither counter; a call that returns true
  adds one to \<open>_total_compiler_restarted_count\<close> when the argument is
  \<open>run_compilation\<close> and one to \<open>_total_compiler_stopped_count\<close> otherwise, and
  leaves the other counter alone. The difference \<open>1-new_state\<close> is taken in 32-bit
  two's complement arithmetic.
\<close>

theorem set_should_compile_new_jobs_idempotent:
  "(let (r1, b1) = set_should_compile_new_jobs n b;
        (r2, b2) = set_should_compile_new_jobs n b1
    in r2 = False \<and> b2 = b1)
   \<and> (let (r, b') = set_should_compile_new_jobs n b
      in (\<not> r \<longrightarrow> b' = b)
       \<and> (r \<longrightarrow> n = run_compilation \<longrightarrow>
            m_total_compiler_restarted_count b' = m_total_compiler_restarted_count b + 1
          \<and> m_total_compiler_stopped_count b' = m_total_compiler_stopped_count b)
       \<and> (r \<longrightarrow> n \<noteq> run_compilation \<longrightarrow>
            m_total_compiler_stopped_count b' = m_total_compiler_stopped_count b + 1
          \<and> m_total_compiler_restarted_count b' = m_total_compiler_restarted_count b))"
proof -
  obtain r1 b1 where first: "set_should_compile_new_jobs n b = (r1, b1)"
    by (cases "set_should_compile_new_jobs n b")
  have second: "set_should_compile_new_jobs n b1 = (False, b1)"
    using set_should_compile_new_jobs_again [of n b] first by simp
  have unchanged: "\<not> r1 \<Longrightarrow> b1 = b"
    using set_should_compile_new_jobs_failed [of n b] first by simp
  have restarted: "r1 \<Longrightarrow> n = run_compilation \<Longrightarrow>
      m_total_compiler_restarted_count b1 = m_total_compiler_restarted_count b + 1
    \<and> m_total_compiler_stopped_count b1 = m_total_compiler_stopped_count b"
    using set_should_compile_new_jobs_restarted [of n b] first by simp
  have stopped: "r1 \<Longrightarrow> n \<noteq> run_compilation \<Longrightarrow>
      m_total_compiler_stopped_count b1 = m_total_compiler_stopped_count b + 1
    \<and> m_total_compiler_restarted_count b1 = m_total_compiler_restarted_count b"
    using set_should_compile_new_jobs_stopped [of n b] first by simp
  show ?thesis
    using first second unchanged restarted stopped by simp
qed

theorem set_should_compile_new_jobs_idempotent_witness:
  "set_should_compile_new_jobs stop_compilation
     \<lparr>UseCompiler = True, AlwaysCompileLoopMethods = True,
      m_should_compile_new_jobs = run_compilation,
      m_total_compiler_stopped_count = 4, m_total_compiler_restarted_count = 3,
      m_print_compilation_warning = 0\<rparr>
   = (True, \<lparr>UseCompiler = True, AlwaysCompileLoopMethods = True,
      m_should_compile_new_jobs = stop_compilation,
      m_total_compiler_stopped_count = 5, m_total_compiler_restarted_count = 3,
      m_print_compilation_warning = 0\<rparr>)
   \<and> set_should_compile_new_jobs stop_compilation
     \<lparr>UseCompiler = True, AlwaysCompileLoopMethods = True,
      m_should_compile_new_jobs = stop_compilation,
      m_total_compiler_stopped_count = 5, m_total_compiler_restarted_count = 3,
      m_print_compilation_warning = 0\<rparr>
   = (False, \<lparr>UseCompiler = True, AlwaysCompileLoopMethods = True,
      m_should_compile_new_jobs = stop_compilation,
      m_total_compiler_stopped_count = 5, m_total_compiler_restarted_count = 3,
      m_print_compilation_warning = 0\<rparr>)
   \<and> fst (set_should_compile_new_jobs run_compilation
     \<lparr>UseCompiler = True, AlwaysCompileLoopMethods = True,
      m_should_compile_new_jobs = stop_compilation,
      m_total_compiler_stopped_count = 5, m_total_compiler_restarted_count = 3,
      m_print_compilation_warning = 0\<rparr>)
   \<and> m_total_compiler_restarted_count (snd (set_should_compile_new_jobs run_compilation
     \<lparr>UseCompiler = True, AlwaysCompileLoopMethods = True,
      m_should_compile_new_jobs = stop_compilation,
      m_total_compiler_stopped_count = 5, m_total_compiler_restarted_count = 3,
      m_print_compilation_warning = 0\<rparr>)) = 4"
  using set_should_compile_new_jobs_idempotent [of stop_compilation
     "\<lparr>UseCompiler = True, AlwaysCompileLoopMethods = True,
      m_should_compile_new_jobs = run_compilation,
      m_total_compiler_stopped_count = 4, m_total_compiler_restarted_count = 3,
      m_print_compilation_warning = 0\<rparr>"]
    set_should_compile_new_jobs_idempotent [of stop_compilation
     "\<lparr>UseCompiler = True, AlwaysCompileLoopMethods = True,
      m_should_compile_new_jobs = stop_compilation,
      m_total_compiler_stopped_count = 5, m_total_compiler_restarted_count = 3,
      m_print_compilation_warning = 0\<rparr>"]
    set_should_compile_new_jobs_idempotent [of run_compilation
     "\<lparr>UseCompiler = True, AlwaysCompileLoopMethods = True,
      m_should_compile_new_jobs = stop_compilation,
      m_total_compiler_stopped_count = 5, m_total_compiler_restarted_count = 3,
      m_print_compilation_warning = 0\<rparr>"]
  by (simp add: set_should_compile_new_jobs_def cmpxchg_def
      run_compilation_def stop_compilation_def Let_def)

section \<open>The warning latch\<close>

lemma should_print_compiler_warning_first:
  "m_print_compilation_warning b = 0 \<Longrightarrow>
   should_print_compiler_warning b = (True, b\<lparr>m_print_compilation_warning := 1\<rparr>)"
  by (simp add: should_print_compiler_warning_def cmpxchg_def)

lemma should_print_compiler_warning_later:
  "m_print_compilation_warning b \<noteq> 0 \<Longrightarrow> should_print_compiler_warning b = (False, b)"
  by (simp add: should_print_compiler_warning_def cmpxchg_def)

lemma call_keeps_latch:
  "m_print_compilation_warning b \<noteq> 0 \<Longrightarrow> m_print_compilation_warning (snd (call c b)) \<noteq> 0"
  by (cases c)
    (auto simp: should_print_compiler_warning_later set_should_compile_new_jobs_def
      disable_compilation_forever_def cmpxchg_def xchg_def Let_def)

lemma latched_never_prints:
  "m_print_compilation_warning b \<noteq> 0 \<Longrightarrow> filter printed (calls cs b) = []"
proof (induction cs arbitrary: b)
  case Nil
  then show ?case by simp
next
  case (Cons c cs)
  obtain r b1 where step: "call c b = (r, b1)" by (cases "call c b")
  have "m_print_compilation_warning b1 \<noteq> 0"
    using call_keeps_latch [OF Cons.prems, of c] step by simp
  then have rest: "filter printed (calls cs b1) = []" by (rule Cons.IH)
  have "\<not> printed (c, r, b1)"
    using step Cons.prems
    by (cases c) (auto simp: printed_def should_print_compiler_warning_later)
  then show ?case using step rest by simp
qed

lemma prints_at_most_once: "length (filter printed (calls cs b)) \<le> 1"
proof (induction cs arbitrary: b)
  case Nil
  then show ?case by simp
next
  case (Cons c cs)
  obtain r b1 where step: "call c b = (r, b1)" by (cases "call c b")
  show ?case
  proof (cases "printed (c, r, b1)")
    case True
    then have "c = Should_print_compiler_warning" and "r = Returned True"
      by (simp_all add: printed_def)
    then have "m_print_compilation_warning b1 \<noteq> 0"
      using step
      by (auto simp: should_print_compiler_warning_def cmpxchg_def split: if_splits)
    then have "filter printed (calls cs b1) = []" by (rule latched_never_prints)
    then show ?thesis using step True by simp
  next
    case False
    then show ?thesis using step Cons.IH [of b1] by simp
  qed
qed

text \<open>
  C9. At most one call of \<open>should_print_compiler_warning\<close> returns true. In every
  run of broker calls, from every state, at most one entry of the trace is a
  \<open>should_print_compiler_warning\<close> that returned true. When
  \<open>_print_compilation_warning\<close> is 0 the call returns true and stores 1, and no call in
  any run after it returns true; when it is not 0 the call returns false and changes
  nothing.
\<close>

theorem should_print_compiler_warning_once:
  "length (filter printed (calls cs b)) \<le> 1
   \<and> (m_print_compilation_warning b = 0 \<longrightarrow>
        should_print_compiler_warning b = (True, b\<lparr>m_print_compilation_warning := 1\<rparr>)
      \<and> filter printed (calls cs (snd (should_print_compiler_warning b))) = [])
   \<and> (m_print_compilation_warning b \<noteq> 0 \<longrightarrow>
        should_print_compiler_warning b = (False, b))"
proof -
  have "filter printed (calls cs (snd (should_print_compiler_warning b))) = []"
    if "m_print_compilation_warning b = 0"
    using that latched_never_prints [of "b\<lparr>m_print_compilation_warning := 1\<rparr>" cs]
    by (simp add: should_print_compiler_warning_first)
  then show ?thesis
    using prints_at_most_once [of cs b]
    by (simp add: should_print_compiler_warning_first should_print_compiler_warning_later)
qed

theorem should_print_compiler_warning_once_witness:
  "map (fst \<circ> snd)
     (calls [Should_print_compiler_warning, Should_print_compiler_warning,
             Set_should_compile_new_jobs stop_compilation, Should_print_compiler_warning]
        \<lparr>UseCompiler = True, AlwaysCompileLoopMethods = True,
         m_should_compile_new_jobs = run_compilation,
         m_total_compiler_stopped_count = 0, m_total_compiler_restarted_count = 0,
         m_print_compilation_warning = 0\<rparr>)
   = [Returned True, Returned False, Returned True, Returned False]
   \<and> should_print_compiler_warning
        \<lparr>UseCompiler = True, AlwaysCompileLoopMethods = True,
         m_should_compile_new_jobs = run_compilation,
         m_total_compiler_stopped_count = 0, m_total_compiler_restarted_count = 0,
         m_print_compilation_warning = 1\<rparr>
      = (False, \<lparr>UseCompiler = True, AlwaysCompileLoopMethods = True,
         m_should_compile_new_jobs = run_compilation,
         m_total_compiler_stopped_count = 0, m_total_compiler_restarted_count = 0,
         m_print_compilation_warning = 1\<rparr>)"
  using should_print_compiler_warning_once
    [of "[Should_print_compiler_warning,
             Set_should_compile_new_jobs stop_compilation, Should_print_compiler_warning]"
        "\<lparr>UseCompiler = True, AlwaysCompileLoopMethods = True,
         m_should_compile_new_jobs = run_compilation,
         m_total_compiler_stopped_count = 0, m_total_compiler_restarted_count = 0,
         m_print_compilation_warning = 0\<rparr>"]
    should_print_compiler_warning_once
    [of "[]"
        "\<lparr>UseCompiler = True, AlwaysCompileLoopMethods = True,
         m_should_compile_new_jobs = run_compilation,
         m_total_compiler_stopped_count = 0, m_total_compiler_restarted_count = 0,
         m_print_compilation_warning = 1\<rparr>"]
  by (simp add: should_print_compiler_warning_def set_should_compile_new_jobs_def cmpxchg_def
      run_compilation_def stop_compilation_def Let_def)

section \<open>Queue depth\<close>

text \<open>
  C7. \<open>queue_size\<close> returns the size counter of the selected queue, and 0 when no
  queue is configured. When \<open>compile_queue\<close> returns \<open>nullptr\<close> for the tier the result
  is 0 and no pointer is read; when it returns the address of a queue the result is that
  queue's \<open>size()\<close>, which is its \<open>_size\<close> field.
\<close>

theorem queue_size_selected_or_zero:
  "(compile_queue comp_level is_scc = nullptr \<longrightarrow>
      queue_size heap compile_queue comp_level is_scc = Some 0)
   \<and> (compile_queue comp_level is_scc \<noteq> nullptr \<longrightarrow>
        heap (compile_queue comp_level is_scc) = Some q \<longrightarrow>
        queue_size heap compile_queue comp_level is_scc = Some (size_q q)
      \<and> size_q q = m_size q)"
  by (simp add: queue_size_def size_q_def)


theorem queue_size_selected_or_zero_witness:
  "queue_size
     [4096 \<mapsto> \<lparr>m_size = 3, m_peak_size = 7, m_total_added = 9, m_total_removed = 6\<rparr>]
     (\<lambda>comp_level is_scc. if comp_level = 1 then 4096 else nullptr) 1 False = Some 3
   \<and> queue_size
     [4096 \<mapsto> \<lparr>m_size = 3, m_peak_size = 7, m_total_added = 9, m_total_removed = 6\<rparr>]
     (\<lambda>comp_level is_scc. if comp_level = 1 then 4096 else nullptr) 0 False = Some 0"
  using queue_size_selected_or_zero
    [of "\<lambda>comp_level is_scc. if comp_level = 1 then 4096 else nullptr" 1 False
        "[4096 \<mapsto> \<lparr>m_size = 3, m_peak_size = 7, m_total_added = 9, m_total_removed = 6\<rparr>]"
        "\<lparr>m_size = 3, m_peak_size = 7, m_total_added = 9, m_total_removed = 6\<rparr>"]
    queue_size_selected_or_zero
    [of "\<lambda>comp_level is_scc. if comp_level = 1 then 4096 else nullptr" 0 False
        "[4096 \<mapsto> \<lparr>m_size = 3, m_peak_size = 7, m_total_added = 9, m_total_removed = 6\<rparr>]"]
  by (simp add: nullptr_def size_q_def)

section \<open>Properties of the tagged link\<close>

lemma aligned_clear_low: 
  assumes "is_aligned nm 4" shows "nm AND NOT 3 = nm"
proof -
  have low: "nm AND 3 = 0" using assms by (simp add: is_aligned_def)
  have "nm = nm AND (NOT 3 OR 3)" by simp
  also have "\<dots> = (nm AND NOT 3) OR (nm AND 3)" by (rule bit.conj_disj_distrib)
  finally show ?thesis using low by simp
qed

lemma link_low_bits:
  fixes t :: uintptr_t
  assumes "t AND 3 = t"
  shows "((nm AND NOT 3) OR t) AND 3 = t"
proof -
  have "((nm AND NOT 3) OR t) AND 3 = ((nm AND NOT 3) AND 3) OR (t AND 3)"
    by (rule bit.conj_disj_distrib2)
  also have "(nm AND NOT 3) AND 3 = nm AND (NOT 3 AND 3)" by (rule and.assoc)
  also have "NOT 3 AND 3 = (0::uintptr_t)" by simp
  finally show ?thesis using assms by simp
qed

lemma link_high_bits:
  fixes t :: uintptr_t
  assumes "t AND 3 = t"
  shows "((nm AND NOT 3) OR t) AND NOT 3 = nm AND NOT 3"
proof -
  have "t AND NOT 3 = (t AND 3) AND NOT 3" using assms by simp
  also have "\<dots> = t AND (3 AND NOT 3)" by (rule and.assoc)
  finally have t0: "t AND NOT 3 = 0" by simp
  have "((nm AND NOT 3) OR t) AND NOT 3 = ((nm AND NOT 3) AND NOT 3) OR (t AND NOT 3)"
    by (rule bit.conj_disj_distrib2)
  also have "(nm AND NOT 3) AND NOT 3 = nm AND NOT 3" by (simp add: and.assoc)
  finally show ?thesis using t0 by simp
qed

lemma tag_cases:
  "(tag::uint) \<le> 3 \<longleftrightarrow> tag = 0 \<or> tag = 1 \<or> tag = 2 \<or> tag = 3"
proof
  assume "tag \<le> 3"
  then have "unat tag \<le> 3" by (simp add: word_le_nat_alt)
  then have "unat tag = 0 \<or> unat tag = 1 \<or> unat tag = 2 \<or> unat tag = 3" by arith
  then show "tag = 0 \<or> tag = 1 \<or> tag = 2 \<or> tag = 3"
    by (simp add: word_unat_eq_iff)
next
  assume "tag = 0 \<or> tag = 1 \<or> tag = 2 \<or> tag = 3"
  then show "tag \<le> 3" by auto
qed

lemma extract_state_le: "extract_state link \<le> claim_strong_done_tag"
proof -
  have "extract_state link = ucast link AND 3"
    by (simp add: extract_state_def unsigned_and_eq)
  moreover have "(ucast link :: uint) AND 3 \<le> 3" by (rule word_and_le1)
  ultimately show ?thesis by (simp add: claim_strong_done_tag_def)
qed

lemma tags_ordered:
  "claim_weak_request_tag < claim_weak_done_tag
   \<and> claim_weak_done_tag < claim_strong_request_tag
   \<and> claim_strong_request_tag < claim_strong_done_tag"
  by (simp add: claim_weak_request_tag_def claim_weak_done_tag_def
      claim_strong_request_tag_def claim_strong_done_tag_def)

text \<open>
  C6. The tag values respect the weak-before-strong order:
  \<open>claim_weak_request_tag < claim_weak_done_tag < claim_strong_request_tag <
  claim_strong_done_tag\<close>, and for every link value \<open>oops_do_has_any_strong_state\<close>
  holds if and only if \<open>extract_state\<close> of the link is \<open>claim_strong_request_tag\<close> or
  \<open>claim_strong_done_tag\<close>.
\<close>

theorem tags_respect_weak_before_strong:
  "claim_weak_request_tag < claim_weak_done_tag
   \<and> claim_weak_done_tag < claim_strong_request_tag
   \<and> claim_strong_request_tag < claim_strong_done_tag
   \<and> (oops_do_has_any_strong_state link \<longleftrightarrow>
        extract_state link = claim_strong_request_tag
      \<or> extract_state link = claim_strong_done_tag)"
proof -
  have "extract_state link \<le> 3"
    using extract_state_le [of link] by (simp add: claim_strong_done_tag_def)
  then have "extract_state link = 0 \<or> extract_state link = 1
      \<or> extract_state link = 2 \<or> extract_state link = 3"
    by (simp add: tag_cases)
  then have "2 \<le> extract_state link \<longleftrightarrow> extract_state link = 2 \<or> extract_state link = 3"
    by (auto simp: word_le_nat_alt)
  then show ?thesis
    using tags_ordered
    by (simp add: oops_do_has_any_strong_state_def claim_strong_request_tag_def
        claim_strong_done_tag_def)
qed

text \<open>
  C5. The tagged-pointer encoding round-trips. For every nmethod pointer aligned to 4
  bytes and each of the four tags, \<open>mark_link\<close> passes its assertions and returns a
  link whose \<open>extract_state\<close> is the tag and whose \<open>extract_nmethod\<close> is the pointer.
\<close>

theorem mark_link_round_trip:
  assumes "is_aligned nm 4"
      and "tag = claim_weak_request_tag \<or> tag = claim_weak_done_tag
         \<or> tag = claim_strong_request_tag \<or> tag = claim_strong_done_tag"
  shows "\<exists>link. mark_link nm tag = Some link
         \<and> extract_state link = tag \<and> extract_nmethod link = nm"
proof -
  have tag: "tag = 0 \<or> tag = 1 \<or> tag = 2 \<or> tag = 3"
    using assms(2)
    by (simp add: claim_weak_request_tag_def claim_weak_done_tag_def
        claim_strong_request_tag_def claim_strong_done_tag_def)
  then have le: "tag \<le> claim_strong_done_tag"
    by (simp add: tag_cases claim_strong_done_tag_def)
  define t :: uintptr_t where "t = ucast tag"
  have t_low: "t AND 3 = t" using tag by (auto simp: t_def)
  have t_back: "(ucast t :: uint) = tag" using tag by (auto simp: t_def)
  define link where "link = (nm AND NOT 3) OR t"
  have "mark_link nm tag = Some link"
    using le assms(1) by (simp add: mark_link_def link_def t_def)
  moreover have "extract_state link = tag"
    using link_low_bits [OF t_low, of nm] t_back by (simp add: extract_state_def link_def)
  moreover have "extract_nmethod link = nm"
    using link_high_bits [OF t_low, of nm] aligned_clear_low [OF assms(1)]
    by (simp add: extract_nmethod_def link_def)
  ultimately show ?thesis by blast
qed

theorem mark_link_round_trip_witness:
  "is_aligned 4096 4
   \<and> mark_link 4096 claim_strong_request_tag = Some 4098
   \<and> extract_state 4098 = claim_strong_request_tag
   \<and> extract_nmethod 4098 = 4096"
  using mark_link_round_trip [of 4096 claim_strong_request_tag]
  by (simp add: is_aligned_def mark_link_def extract_state_def extract_nmethod_def
      claim_strong_request_tag_def claim_strong_done_tag_def)

theorem tags_respect_weak_before_strong_witness:
  "oops_do_has_any_strong_state 4099 \<and> extract_state 4099 = claim_strong_done_tag
   \<and> \<not> oops_do_has_any_strong_state 4097 \<and> extract_state 4097 = claim_weak_done_tag"
  using tags_respect_weak_before_strong [of 4099] tags_respect_weak_before_strong [of 4097]
  by (simp add: oops_do_has_any_strong_state_def extract_state_def
      claim_strong_request_tag_def claim_strong_done_tag_def claim_weak_done_tag_def)

section \<open>Properties of the nmethod\<close>

subsection \<open>The unlinked flag\<close>

text \<open>
  Facts about the setters whose bodies the header gives: none of them clears a set
  \<open>_is_unlinked\<close>, and a run in which every assertion holds calls \<open>set_is_unlinked\<close>
  at most once. The operations that the header only declares are not part of these runs.
\<close>

lemma apply_setter_keeps_unlinked:
  "apply_setter c nm = Some nm1 \<Longrightarrow> is_unlinked nm \<Longrightarrow> is_unlinked nm1"
  by (cases c)
    (auto simp: is_unlinked_def set_is_unlinked_def set_has_flushed_dependencies_def
      has_flushed_dependencies_def set_osr_link_def set_method_def set_load_reported_def
      split: if_splits)

lemma apply_setters_keep_unlinked:
  "apply_setters cs nm = Some nm1 \<Longrightarrow> is_unlinked nm \<Longrightarrow> is_unlinked nm1"
proof (induction cs arbitrary: nm)
  case Nil
  then show ?case by simp
next
  case (Cons c cs)
  then obtain nm2 where step: "apply_setter c nm = Some nm2"
    and rest: "apply_setters cs nm2 = Some nm1"
    by (auto split: option.splits)
  have "is_unlinked nm2" using apply_setter_keeps_unlinked [OF step Cons.prems(2)] .
  then show ?case using Cons.IH [OF rest] by simp
qed

lemma unlinked_no_more_set:
  "apply_setters cs nm = Some nm1 \<Longrightarrow> is_unlinked nm \<Longrightarrow> count_list cs Set_is_unlinked = 0"
proof (induction cs arbitrary: nm)
  case Nil
  then show ?case by simp
next
  case (Cons c cs)
  then obtain nm2 where step: "apply_setter c nm = Some nm2"
    and rest: "apply_setters cs nm2 = Some nm1"
    by (auto split: option.splits)
  have "is_unlinked nm2" using apply_setter_keeps_unlinked [OF step Cons.prems(2)] .
  then have "count_list cs Set_is_unlinked = 0" using Cons.IH [OF rest] by simp
  moreover have "c \<noteq> Set_is_unlinked"
    using step Cons.prems(2) by (auto simp: set_is_unlinked_def is_unlinked_def)
  ultimately show ?case by simp
qed

lemma set_is_unlinked_at_most_once:
  "apply_setters cs nm = Some nm1 \<Longrightarrow> count_list cs Set_is_unlinked \<le> 1"
proof (induction cs arbitrary: nm)
  case Nil
  then show ?case by simp
next
  case (Cons c cs)
  then obtain nm2 where step: "apply_setter c nm = Some nm2"
    and rest: "apply_setters cs nm2 = Some nm1"
    by (auto split: option.splits)
  show ?case
  proof (cases "c = Set_is_unlinked")
    case True
    then have "is_unlinked nm2"
      using step by (auto simp: set_is_unlinked_def is_unlinked_def split: if_splits)
    then have "count_list cs Set_is_unlinked = 0" using unlinked_no_more_set [OF rest] by simp
    then show ?thesis using True by simp
  next
    case False
    then show ?thesis using Cons.IH [OF rest] by simp
  qed
qed

subsection \<open>The embedded tables\<close>

lemma cast_int_in_range:
  "- 2147483648 \<le> d \<Longrightarrow> d < 2147483648 \<Longrightarrow> cast_int d = d"
  by (simp add: cast_int_def)

lemma slot_count_in_range:
  assumes "0 < sz" and "0 \<le> d" and "d < 2147483648" and "0 < cast_int (d div sz + 1)"
  shows "cast_int (d div sz + 1) = d div sz + 1"
proof -
  have lo: "0 \<le> d div sz" using assms(1,2) by (simp add: pos_imp_zdiv_nonneg_iff)
  have "d div sz \<le> d div 1" using assms(1,2) by (intro zdiv_mono2) simp_all
  then have hi: "d div sz + 1 \<le> 2147483648" using assms(3) by simp
  show ?thesis
  proof (cases "d div sz + 1 = 2147483648")
    case True
    then have "cast_int (d div sz + 1) = - 2147483648" by (simp add: cast_int_def)
    then show ?thesis using assms(4) by simp
  next
    case False
    then show ?thesis using lo hi by (simp add: cast_int_in_range)
  qed
qed

lemma oop_addr_at_inside:
  assumes "0 < oopSize"
      and "oops_begin nm \<le> oops_end nm" and "oops_end nm - oops_begin nm < 2147483648"
      and "oops_count oopSize nm = Some n" and "0 < index" and "index < n"
  shows "oop_addr_at oopSize nm index = Some (oops_begin nm + (index - 1) * oopSize)"
    and "oops_contains nm (oops_begin nm + (index - 1) * oopSize)"
proof -
  have size: "oops_size nm = oops_end nm - oops_begin nm"
    using assms(2,3) by (simp add: oops_size_def cast_int_in_range)
  from assms(4) have dvd: "oops_size nm mod oopSize = 0"
    and n: "n = cast_int (oops_size nm div oopSize + 1)"
    by (auto simp: oops_count_def split: if_splits)
  have "0 < cast_int (oops_size nm div oopSize + 1)" using assms(5,6) n by simp
  then have n1: "n = oops_size nm div oopSize + 1"
    using n size assms(1,2,3) slot_count_in_range [of oopSize "oops_size nm"] by simp
  show "oop_addr_at oopSize nm index = Some (oops_begin nm + (index - 1) * oopSize)"
    using assms by (simp add: oop_addr_at_def)
  have "index \<le> oops_size nm div oopSize" using assms(6) n1 by simp
  then have "index * oopSize \<le> (oops_size nm div oopSize) * oopSize"
    using assms(1) by (simp add: mult_right_mono)
  also have "\<dots> = oops_size nm" using dvd by (simp add: mod_0_imp_dvd)
  finally have "(index - 1) * oopSize < oops_size nm"
    using assms(1) by (simp add: algebra_simps)
  moreover have "0 \<le> (index - 1) * oopSize" using assms(1,5) by simp
  ultimately show "oops_contains nm (oops_begin nm + (index - 1) * oopSize)"
    using size by (simp add: oops_contains_def)
qed

lemma oop_addr_at_last_is_end:
  assumes "0 < oopSize"
      and "oops_begin nm \<le> oops_end nm" and "oops_end nm - oops_begin nm < 2147483648"
      and "oops_count oopSize nm = Some n" and "1 < n"
  shows "oop_addr_at oopSize nm n = Some (oops_end nm)"
    and "\<not> oops_contains nm (oops_end nm)"
proof -
  have size: "oops_size nm = oops_end nm - oops_begin nm"
    using assms(2,3) by (simp add: oops_size_def cast_int_in_range)
  from assms(4) have dvd: "oops_size nm mod oopSize = 0"
    and n: "n = cast_int (oops_size nm div oopSize + 1)"
    by (auto simp: oops_count_def split: if_splits)
  have "0 < cast_int (oops_size nm div oopSize + 1)" using assms(5) n by simp
  then have n1: "n = oops_size nm div oopSize + 1"
    using n size assms(1,2,3) slot_count_in_range [of oopSize "oops_size nm"] by simp
  have "(n - 1) * oopSize = oops_size nm" using dvd n1 by (simp add: mod_0_imp_dvd)
  then show "oop_addr_at oopSize nm n = Some (oops_end nm)"
    using assms(4,5) size by (simp add: oop_addr_at_def)
  show "\<not> oops_contains nm (oops_end nm)" by (simp add: oops_contains_def)
qed

lemma metadata_addr_at_inside:
  assumes "0 < wordSize"
      and "metadata_begin nm \<le> metadata_end nm"
      and "metadata_end nm - metadata_begin nm < 2147483648"
      and "metadata_count wordSize nm = Some n" and "0 < index" and "index < n"
  shows "metadata_addr_at wordSize nm index = Some (metadata_begin nm + (index - 1) * wordSize)"
    and "metadata_contains nm (metadata_begin nm + (index - 1) * wordSize)"
proof -
  have size: "metadata_size nm = metadata_end nm - metadata_begin nm"
    using assms(2,3) by (simp add: metadata_size_def cast_int_in_range)
  from assms(4) have dvd: "metadata_size nm mod wordSize = 0"
    and n: "n = cast_int (metadata_size nm div wordSize + 1)"
    by (auto simp: metadata_count_def split: if_splits)
  have "0 < cast_int (metadata_size nm div wordSize + 1)" using assms(5,6) n by simp
  then have n1: "n = metadata_size nm div wordSize + 1"
    using n size assms(1,2,3) slot_count_in_range [of wordSize "metadata_size nm"] by simp
  show "metadata_addr_at wordSize nm index
      = Some (metadata_begin nm + (index - 1) * wordSize)"
    using assms by (simp add: metadata_addr_at_def)
  have "index \<le> metadata_size nm div wordSize" using assms(6) n1 by simp
  then have "index * wordSize \<le> (metadata_size nm div wordSize) * wordSize"
    using assms(1) by (simp add: mult_right_mono)
  also have "\<dots> = metadata_size nm" using dvd by (simp add: mod_0_imp_dvd)
  finally have "(index - 1) * wordSize < metadata_size nm"
    using assms(1) by (simp add: algebra_simps)
  moreover have "0 \<le> (index - 1) * wordSize" using assms(1,5) by simp
  ultimately show "metadata_contains nm (metadata_begin nm + (index - 1) * wordSize)"
    using size by (simp add: metadata_contains_def)
qed

lemma metadata_addr_at_last_is_end:
  assumes "0 < wordSize"
      and "metadata_begin nm \<le> metadata_end nm"
      and "metadata_end nm - metadata_begin nm < 2147483648"
      and "metadata_count wordSize nm = Some n" and "1 < n"
  shows "metadata_addr_at wordSize nm n = Some (metadata_end nm)"
    and "\<not> metadata_contains nm (metadata_end nm)"
proof -
  have size: "metadata_size nm = metadata_end nm - metadata_begin nm"
    using assms(2,3) by (simp add: metadata_size_def cast_int_in_range)
  from assms(4) have dvd: "metadata_size nm mod wordSize = 0"
    and n: "n = cast_int (metadata_size nm div wordSize + 1)"
    by (auto simp: metadata_count_def split: if_splits)
  have "0 < cast_int (metadata_size nm div wordSize + 1)" using assms(5) n by simp
  then have n1: "n = metadata_size nm div wordSize + 1"
    using n size assms(1,2,3) slot_count_in_range [of wordSize "metadata_size nm"] by simp
  have "(n - 1) * wordSize = metadata_size nm" using dvd n1 by (simp add: mod_0_imp_dvd)
  then show "metadata_addr_at wordSize nm n = Some (metadata_end nm)"
    using assms(4,5) size by (simp add: metadata_addr_at_def)
  show "\<not> metadata_contains nm (metadata_end nm)" by (simp add: metadata_contains_def)
qed

text \<open>
  C8. The index \<open>oops_count()\<close> passes the assertion of \<open>oop_addr_at\<close> and yields
  \<open>oops_end()\<close>, which \<open>oops_contains\<close> rejects. For an nmethod at address 4096 whose
  oop table is the one slot at bytes 4160 to 4167 and whose metadata table is the one
  slot at bytes 4168 to 4175, with 8-byte slots: \<open>oops_count()\<close> is 2,
  \<open>oop_addr_at(2)\<close> returns 4168 and \<open>oops_contains(4168)\<close> is false; likewise
  \<open>metadata_count()\<close> is 2, \<open>metadata_addr_at(2)\<close> returns 4176 and
  \<open>metadata_contains(4176)\<close> is false. The lemmas before it give the general picture,
  for a table whose size fits an \<open>int\<close>: every index strictly below the count lands
  inside the table, the count itself on its end.
\<close>

theorem oop_addr_at_last_index_outside:
  "oops_count 8 \<lparr>header_begin = 4096, m_osr_link = 0, m_method = 8192,
       m_is_unlinked = False, m_oops_offset = 64, m_metadata_offset = 72,
       m_scopes_data_begin = 4176, m_has_flushed_dependencies = False,
       m_load_reported = False, m_state = in_use\<rparr> = Some 2
   \<and> oop_addr_at 8 \<lparr>header_begin = 4096, m_osr_link = 0, m_method = 8192,
       m_is_unlinked = False, m_oops_offset = 64, m_metadata_offset = 72,
       m_scopes_data_begin = 4176, m_has_flushed_dependencies = False,
       m_load_reported = False, m_state = in_use\<rparr> 2 = Some 4168
   \<and> \<not> oops_contains \<lparr>header_begin = 4096, m_osr_link = 0, m_method = 8192,
       m_is_unlinked = False, m_oops_offset = 64, m_metadata_offset = 72,
       m_scopes_data_begin = 4176, m_has_flushed_dependencies = False,
       m_load_reported = False, m_state = in_use\<rparr> 4168
   \<and> metadata_count 8 \<lparr>header_begin = 4096, m_osr_link = 0, m_method = 8192,
       m_is_unlinked = False, m_oops_offset = 64, m_metadata_offset = 72,
       m_scopes_data_begin = 4176, m_has_flushed_dependencies = False,
       m_load_reported = False, m_state = in_use\<rparr> = Some 2
   \<and> metadata_addr_at 8 \<lparr>header_begin = 4096, m_osr_link = 0, m_method = 8192,
       m_is_unlinked = False, m_oops_offset = 64, m_metadata_offset = 72,
       m_scopes_data_begin = 4176, m_has_flushed_dependencies = False,
       m_load_reported = False, m_state = in_use\<rparr> 2 = Some 4176
   \<and> \<not> metadata_contains \<lparr>header_begin = 4096, m_osr_link = 0, m_method = 8192,
       m_is_unlinked = False, m_oops_offset = 64, m_metadata_offset = 72,
       m_scopes_data_begin = 4176, m_has_flushed_dependencies = False,
       m_load_reported = False, m_state = in_use\<rparr> 4176"
  by (simp add: oops_count_def oop_addr_at_def oops_contains_def oops_size_def oops_begin_def
      oops_end_def metadata_count_def metadata_addr_at_def metadata_contains_def
      metadata_size_def metadata_begin_def metadata_end_def cast_int_def)

subsection \<open>The install state\<close>

lemma try_transition_step:
  "try_transition t nm =
     (if state_arrow (m_state nm) t then (True, nm\<lparr>m_state := t\<rparr>) else (False, nm))"
  by (cases t; cases "m_state nm")
    (simp_all add: try_transition_def cmpxchg_def state_arrow_def)

lemma transition_step:
  "transition c nm = (r, nm1) \<Longrightarrow>
     (r \<longrightarrow> state_arrow (m_state nm) (m_state nm1)) \<and> (\<not> r \<longrightarrow> nm1 = nm)"
  by (cases c)
    (auto simp: try_transition_step make_in_use_def make_not_entrant_def make_not_used_def
      split: if_splits)

lemma retired_is_absorbing_step:
  "m_state nm = not_used \<or> m_state nm = not_entrant \<Longrightarrow>
   transition c nm = (False, nm)"
  by (cases c)
    (auto simp: try_transition_step make_in_use_def make_not_entrant_def make_not_used_def
      state_arrow_def)

lemma retired_is_absorbing:
  "m_state nm = not_used \<or> m_state nm = not_entrant \<Longrightarrow> transitions cs nm = nm"
  by (induction cs) (simp_all add: retired_is_absorbing_step)

lemma transitions_append:
  "transitions (cs1 @ cs2) nm = transitions cs2 (transitions cs1 nm)"
  by (induction cs1 arbitrary: nm) simp_all

lemma never_back_to_not_installed:
  "m_state nm \<noteq> not_installed \<Longrightarrow> m_state (transitions cs nm) \<noteq> not_installed"
proof (induction cs arbitrary: nm)
  case Nil
  then show ?case by simp
next
  case (Cons c cs)
  obtain r nm1 where step: "transition c nm = (r, nm1)" by (cases "transition c nm")
  have "m_state nm1 \<noteq> not_installed"
    using transition_step [OF step] Cons.prems by (cases r) (auto simp: state_arrow_def)
  then show ?case using Cons.IH [of nm1] step by simp
qed

text \<open>
  C2. The install state is monotonic. Every call of \<open>try_transition\<close>, \<open>make_in_use\<close>,
  \<open>make_not_entrant\<close> or \<open>make_not_used\<close> either returns false and leaves the nmethod
  as it was, or returns true and moves the state along one arrow of
  \<open>not_installed \<rightarrow> in_use \<rightarrow> {not_used, not_entrant}\<close>. From \<open>not_used\<close> and from
  \<open>not_entrant\<close> every call returns false and every run of calls leaves the nmethod
  unchanged. An nmethod that was \<open>in_use\<close> and is no longer so after a run is not
  \<open>in_use\<close> after any continuation of that run.
\<close>

theorem install_state_is_monotone:
  "(\<forall>r nm1. transition c nm = (r, nm1) \<longrightarrow>
      (r \<longrightarrow> state_arrow (m_state nm) (m_state nm1)) \<and> (\<not> r \<longrightarrow> nm1 = nm))
   \<and> (m_state nm = not_used \<or> m_state nm = not_entrant \<longrightarrow>
        transition c nm = (False, nm) \<and> transitions cs nm = nm)
   \<and> (m_state nm = in_use \<longrightarrow> m_state (transitions cs nm) \<noteq> in_use \<longrightarrow>
        m_state (transitions (cs @ ds) nm) \<noteq> in_use)"
proof -
  have "m_state (transitions (cs @ ds) nm) \<noteq> in_use"
    if "m_state nm = in_use" and "m_state (transitions cs nm) \<noteq> in_use"
  proof -
    have "m_state (transitions cs nm) \<noteq> not_installed"
      using that(1) by (simp add: never_back_to_not_installed)
    then have retired: "m_state (transitions cs nm) = not_used
        \<or> m_state (transitions cs nm) = not_entrant"
      using that(2) by (cases "m_state (transitions cs nm)") simp_all
    then have "transitions (cs @ ds) nm = transitions cs nm"
      by (simp add: transitions_append retired_is_absorbing)
    then show ?thesis using that(2) by simp
  qed
  then show ?thesis
    using transition_step [of c nm]
    by (simp add: retired_is_absorbing_step retired_is_absorbing)
qed

theorem install_state_is_monotone_witness:
  "transition Make_in_use
     \<lparr>header_begin = 4096, m_osr_link = 0, m_method = 8192,
      m_is_unlinked = False, m_oops_offset = 64, m_metadata_offset = 72,
      m_scopes_data_begin = 4176, m_has_flushed_dependencies = False,
      m_load_reported = False, m_state = not_installed\<rparr>
   = (True, \<lparr>header_begin = 4096, m_osr_link = 0, m_method = 8192,
      m_is_unlinked = False, m_oops_offset = 64, m_metadata_offset = 72,
      m_scopes_data_begin = 4176, m_has_flushed_dependencies = False,
      m_load_reported = False, m_state = in_use\<rparr>)
   \<and> m_state (transitions [Make_in_use, Make_not_used]
     \<lparr>header_begin = 4096, m_osr_link = 0, m_method = 8192,
      m_is_unlinked = False, m_oops_offset = 64, m_metadata_offset = 72,
      m_scopes_data_begin = 4176, m_has_flushed_dependencies = False,
      m_load_reported = False, m_state = in_use\<rparr>) = not_used
   \<and> m_state (transitions ([Make_in_use, Make_not_used] @ [Make_in_use, Make_not_entrant True])
     \<lparr>header_begin = 4096, m_osr_link = 0, m_method = 8192,
      m_is_unlinked = False, m_oops_offset = 64, m_metadata_offset = 72,
      m_scopes_data_begin = 4176, m_has_flushed_dependencies = False,
      m_load_reported = False, m_state = in_use\<rparr>) = not_used
   \<and> transition Make_in_use
     \<lparr>header_begin = 4096, m_osr_link = 0, m_method = 8192,
      m_is_unlinked = False, m_oops_offset = 64, m_metadata_offset = 72,
      m_scopes_data_begin = 4176, m_has_flushed_dependencies = False,
      m_load_reported = False, m_state = not_entrant\<rparr>
   = (False, \<lparr>header_begin = 4096, m_osr_link = 0, m_method = 8192,
      m_is_unlinked = False, m_oops_offset = 64, m_metadata_offset = 72,
      m_scopes_data_begin = 4176, m_has_flushed_dependencies = False,
      m_load_reported = False, m_state = not_entrant\<rparr>)"
  using install_state_is_monotone
    [of Make_in_use "\<lparr>header_begin = 4096, m_osr_link = 0, m_method = 8192,
      m_is_unlinked = False, m_oops_offset = 64, m_metadata_offset = 72,
      m_scopes_data_begin = 4176, m_has_flushed_dependencies = False,
      m_load_reported = False, m_state = not_installed\<rparr>" "[]" "[]"]
    install_state_is_monotone
    [of Make_in_use "\<lparr>header_begin = 4096, m_osr_link = 0, m_method = 8192,
      m_is_unlinked = False, m_oops_offset = 64, m_metadata_offset = 72,
      m_scopes_data_begin = 4176, m_has_flushed_dependencies = False,
      m_load_reported = False, m_state = in_use\<rparr>"
      "[Make_in_use, Make_not_used]" "[Make_in_use, Make_not_entrant True]"]
    install_state_is_monotone
    [of Make_in_use "\<lparr>header_begin = 4096, m_osr_link = 0, m_method = 8192,
      m_is_unlinked = False, m_oops_offset = 64, m_metadata_offset = 72,
      m_scopes_data_begin = 4176, m_has_flushed_dependencies = False,
      m_load_reported = False, m_state = not_entrant\<rparr>" "[]" "[]"]
  by (simp add: make_in_use_def make_not_used_def make_not_entrant_def try_transition_def
      cmpxchg_def)

end
